theory Spec2Isabelle
  imports Complex_Main
begin

section \<open>The descriptor document\<close>

text \<open>
  \<^verbatim>\<open>download_vrs.py\<close> reads a document with \<^verbatim>\<open>json.load\<close> and walks it. A parsed
  document is a tree of Python values: \<^verbatim>\<open>None\<close>, booleans, integers, floats, strings,
  lists and dicts. A dict keeps its keys in insertion order, so it is an association
  list here; \<^verbatim>\<open>json.load\<close> never produces a dict with a repeated key. Strings are lists
  of 8-bit characters (code points below 256).
\<close>

datatype json =
    JNull
  | JBool bool
  | JInt int
  | JFloat rat
  | JStr string
  | JList "json list"
  | JDict "(string \<times> json) list"

text \<open>\<^verbatim>\<open>key in obj\<close> and \<^verbatim>\<open>obj.get(key)\<close>, \<^verbatim>\<open>obj.get(key, default)\<close> on a dict;
  Python's \<^verbatim>\<open>None\<close> is \<^const>\<open>JNull\<close>.\<close>

definition has_key :: "string \<Rightarrow> (string \<times> json) list \<Rightarrow> bool" where
  "has_key k kvs = (map_of kvs k \<noteq> None)"

definition dict_get_default :: "(string \<times> json) list \<Rightarrow> string \<Rightarrow> json \<Rightarrow> json" where
  "dict_get_default kvs k d = (case map_of kvs k of None \<Rightarrow> d | Some v \<Rightarrow> v)"

definition dict_get :: "(string \<times> json) list \<Rightarrow> string \<Rightarrow> json" where
  "dict_get kvs k = dict_get_default kvs k JNull"

text \<open>Truth value of a Python object, as \<^verbatim>\<open>if not url\<close> and \<^verbatim>\<open>if sha\<close> test it.\<close>

fun truthy :: "json \<Rightarrow> bool" where
  "truthy JNull = False"
| "truthy (JBool b) = b"
| "truthy (JInt i) = (i \<noteq> 0)"
| "truthy (JFloat r) = (r \<noteq> 0)"
| "truthy (JStr s) = (s \<noteq> [])"
| "truthy (JList xs) = (xs \<noteq> [])"
| "truthy (JDict kvs) = (kvs \<noteq> [])"

text \<open>Python exceptions the program can meet; all of them derive from \<^verbatim>\<open>Exception\<close>.\<close>

datatype exn =
    TypeError
  | AttributeError
  | ValueError
  | OSError
  | URLError
  | HTTPError nat
  | IncompleteRead
  | OverflowError

section \<open>Entry extraction\<close>

text \<open>
  \<^verbatim>\<open>recursive_find_entries\<close> (lines 66-76) is a generator; \<^verbatim>\<open>main\<close> consumes all of it,
  so the model is the list of what it yields, in order. The two loops
  \<^verbatim>\<open>for v in obj.values()\<close> and \<^verbatim>\<open>for item in obj\<close> are the two helper functions.
\<close>

fun recursive_find_entries :: "json \<Rightarrow> json list"
and find_in_values :: "(string \<times> json) list \<Rightarrow> json list"
and find_in_items :: "json list \<Rightarrow> json list" where
  "recursive_find_entries (JDict kvs) =
     (if has_key ''filename'' kvs \<and> has_key ''download_url'' kvs then [JDict kvs] else [])
       @ find_in_values kvs"
| "recursive_find_entries (JList xs) = find_in_items xs"
| "recursive_find_entries JNull = []"
| "recursive_find_entries (JBool b) = []"
| "recursive_find_entries (JInt i) = []"
| "recursive_find_entries (JFloat r) = []"
| "recursive_find_entries (JStr s) = []"
| "find_in_values [] = []"
| "find_in_values ((k, v) # kvs) = recursive_find_entries v @ find_in_values kvs"
| "find_in_items [] = []"
| "find_in_items (x # xs) = recursive_find_entries x @ find_in_items xs"

text \<open>
  The specification's side of the extraction claim: every node of the document in
  depth-first, left-to-right order (a node before its children), and the test
  "a dict with both marker fields".
\<close>

fun preorder :: "json \<Rightarrow> json list"
and preorder_values :: "(string \<times> json) list \<Rightarrow> json list"
and preorder_items :: "json list \<Rightarrow> json list" where
  "preorder (JDict kvs) = JDict kvs # preorder_values kvs"
| "preorder (JList xs) = JList xs # preorder_items xs"
| "preorder JNull = [JNull]"
| "preorder (JBool b) = [JBool b]"
| "preorder (JInt i) = [JInt i]"
| "preorder (JFloat r) = [JFloat r]"
| "preorder (JStr s) = [JStr s]"
| "preorder_values [] = []"
| "preorder_values ((k, v) # kvs) = preorder v @ preorder_values kvs"
| "preorder_items [] = []"
| "preorder_items (x # xs) = preorder x @ preorder_items xs"

fun looks_like_entry :: "json \<Rightarrow> bool" where
  "looks_like_entry (JDict kvs) = (has_key ''filename'' kvs \<and> has_key ''download_url'' kvs)"
| "looks_like_entry _ = False"

section \<open>The filename filter\<close>

text \<open>
  \<^verbatim>\<open>VRS_REGEX = re.compile(r"\.vrs$", re.IGNORECASE)\<close> (line 44), used through
  \<^verbatim>\<open>VRS_REGEX.search(fname)\<close>. Without \<^verbatim>\<open>re.MULTILINE\<close>, \<^verbatim>\<open>$\<close> matches at the end of the
  string and also just before a newline that is the last character of the string.
  Among the characters below 256 the letters v, r and s match, ignoring case, only
  themselves and their capitals.
\<close>

definition newline :: char where
  "newline = CHR 0x0A"

fun match_vrs_here :: "string \<Rightarrow> bool" where
  "match_vrs_here (c0 # c1 # c2 # c3 # rest) =
     (c0 = CHR ''.'' \<and> (c1 = CHR ''v'' \<or> c1 = CHR ''V'') \<and> (c2 = CHR ''r'' \<or> c2 = CHR ''R'')
      \<and> (c3 = CHR ''s'' \<or> c3 = CHR ''S'') \<and> (rest = [] \<or> rest = [newline]))"
| "match_vrs_here _ = False"

fun VRS_REGEX_search :: "string \<Rightarrow> bool" where
  "VRS_REGEX_search [] = False"
| "VRS_REGEX_search (c # cs) = (match_vrs_here (c # cs) \<or> VRS_REGEX_search cs)"

text \<open>
  The test of lines 225-226 on one entry. The pattern is a \<^verbatim>\<open>str\<close> pattern, so a name
  that is not a string makes \<^verbatim>\<open>search\<close> raise \<^verbatim>\<open>TypeError\<close>; an entry that is not a
  dict has no \<^verbatim>\<open>get\<close>.
\<close>

fun is_vrs_entry :: "json \<Rightarrow> exn + bool" where
  "is_vrs_entry (JDict kvs) =
     (case dict_get_default kvs ''filename'' (JStr []) of
        JStr fname \<Rightarrow> Inr (VRS_REGEX_search fname)
      | _ \<Rightarrow> Inl TypeError)"
| "is_vrs_entry _ = Inl AttributeError"

text \<open>The loop of lines 223-227: the eligible entries, in extraction order.\<close>

fun collect_vrs :: "json list \<Rightarrow> exn + json list" where
  "collect_vrs [] = Inr []"
| "collect_vrs (e # es) =
     (case is_vrs_entry e of
        Inl x \<Rightarrow> Inl x
      | Inr keep \<Rightarrow>
          (case collect_vrs es of
             Inl x \<Rightarrow> Inl x
           | Inr rest \<Rightarrow> Inr (if keep then e # rest else rest)))"

text \<open>
  The specification's side of the filter claim: the name ends with the suffix, letters
  compared without regard to case (\<^verbatim>\<open>str.lower\<close> on characters below 256: A-Z and the
  capitals 0xC0-0xDE except the multiplication sign 0xD7 move up by 32).
\<close>

definition lower_char :: "char \<Rightarrow> char" where
  "lower_char c =
     (let n = of_char c :: nat in
      if (65 \<le> n \<and> n \<le> 90) \<or> (192 \<le> n \<and> n \<le> 222 \<and> n \<noteq> 215) then char_of (n + 32) else c)"

definition lower :: "string \<Rightarrow> string" where
  "lower s = map lower_char s"

definition ends_with_ci :: "string \<Rightarrow> string \<Rightarrow> bool" where
  "ends_with_ci suffix name =
     (length suffix \<le> length name
      \<and> lower (drop (length name - length suffix) name) = lower suffix)"

section \<open>The world: files, requests, output\<close>

text \<open>
  Everything outside the program is a parameter. The server and the library calls that
  can fail are the fields of \<open>env\<close>: \<^verbatim>\<open>urlopen\<close> answers a request with an exception or a
  response (status, headers, the chunks that successive \<^verbatim>\<open>resp.read(CHUNK_SIZE)\<close> return,
  and the exception that ends the stream early, if any); \<open>fs_error\<close> says, for the
  current files, whether a file-system call raises; \<open>sha1_hex\<close> is
  \<^verbatim>\<open>hashlib.sha1(...).hexdigest()\<close>. Timeouts are exceptions of \<^verbatim>\<open>urlopen\<close> and of the
  stream. A response body is a finite list of chunks: a server that sends without end
  is outside the model. File contents are byte strings.
\<close>

type_synonym bytes = string
type_synonym path = string

datatype http_method = GET | HEAD

record request =
  req_method :: http_method
  req_url :: json
  req_range :: "nat option"

record response =
  status :: nat
  header :: "string \<Rightarrow> string option"
  body :: "bytes list"
  body_error :: "exn option"

datatype fs_op =
    Makedirs path
  | OpenWrite path
  | OpenAppend path
  | WriteChunk path bytes
  | Replace path path
  | OpenRead path

record env =
  urlopen :: "request \<Rightarrow> exn + response"
  fs_error :: "(path \<Rightarrow> bytes option) \<Rightarrow> fs_op \<Rightarrow> exn option"
  sha1_hex :: "bytes \<Rightarrow> string"

text \<open>The status lines the program prints, by their tag and the file they name.\<close>

datatype line =
    SkipNoUrl string
  | OkExists string
  | InfoDownloading string
  | Fail string
  | WarnSize string
  | WarnSha1 string
  | OkSha1 string
  | ErrorDownload exn

text \<open>
  The state: the files on disk, every state the files went through (one snapshot per
  change, oldest first), the requests sent so far, and the lines printed so far.
\<close>

record world =
  files :: "path \<Rightarrow> bytes option"
  snapshots :: "(path \<Rightarrow> bytes option) list"
  requests :: "request list"
  out :: "line list"

definition set_files :: "(path \<Rightarrow> bytes option) \<Rightarrow> world \<Rightarrow> world" where
  "set_files f w = w\<lparr>files := f, snapshots := snapshots w @ [f]\<rparr>"

definition print_line :: "line \<Rightarrow> world \<Rightarrow> world" where
  "print_line l w = w\<lparr>out := out w @ [l]\<rparr>"

definition content_of :: "world \<Rightarrow> path \<Rightarrow> bytes" where
  "content_of w p = (case files w p of None \<Rightarrow> [] | Some b \<Rightarrow> b)"

text \<open>\<^verbatim>\<open>os.path.exists\<close>, \<^verbatim>\<open>os.path.getsize\<close> and \<^verbatim>\<open>sha1_of_file\<close> (lines 47-52).\<close>

definition path_exists :: "world \<Rightarrow> path \<Rightarrow> bool" where
  "path_exists w p = (files w p \<noteq> None)"

definition getsize :: "world \<Rightarrow> path \<Rightarrow> exn + int" where
  "getsize w p = (case files w p of None \<Rightarrow> Inl OSError | Some b \<Rightarrow> Inr (int (length b)))"

definition sha1_of_file :: "env \<Rightarrow> world \<Rightarrow> path \<Rightarrow> exn + string" where
  "sha1_of_file env w p =
     (case files w p of
        None \<Rightarrow> Inl OSError
      | Some b \<Rightarrow>
          (case fs_error env (files w) (OpenRead p) of
             Some e \<Rightarrow> Inl e
           | None \<Rightarrow> Inr (sha1_hex env b)))"

text \<open>
  \<^verbatim>\<open>open(tmp_path, mode)\<close> with mode \<^verbatim>\<open>'ab'\<close> or \<^verbatim>\<open>'wb'\<close>: \<^verbatim>\<open>'wb'\<close> truncates, \<^verbatim>\<open>'ab'\<close> keeps
  what is there; both create a missing file.
\<close>

definition open_staging :: "env \<Rightarrow> path \<Rightarrow> bool \<Rightarrow> world \<Rightarrow> exn option \<times> world" where
  "open_staging env p appending w =
     (case fs_error env (files w) (if appending then OpenAppend p else OpenWrite p) of
        Some e \<Rightarrow> (Some e, w)
      | None \<Rightarrow> (None, set_files ((files w)(p \<mapsto> (if appending then content_of w p else []))) w))"

text \<open>
  The progress line of lines 126-131, computed after every chunk: \<^verbatim>\<open>human_bytes\<close> (lines
  54-61) starts with \<^verbatim>\<open>float(n)\<close>, which raises \<^verbatim>\<open>OverflowError\<close> when \<open>n\<close> rounds to
  \<open>2 ^ 1024\<close> or more, that is from \<open>2 ^ 1024 - 2 ^ 970\<close> on. It is called on the bytes
  downloaded so far and, when the expected size is known and not zero, on the expected
  size; the quotient of the two cannot overflow when neither of them does. Writing
  the line to the terminal is taken to succeed, and the line is not recorded.
\<close>

definition float_limit :: int where
  "float_limit = 2 ^ 1024 - 2 ^ 970"

definition float_overflows :: "int \<Rightarrow> bool" where
  "float_overflows n = (float_limit \<le> \<bar>n\<bar>)"

definition progress_error :: "nat \<Rightarrow> int option \<Rightarrow> exn option" where
  "progress_error total_downloaded expected_size =
     (if float_overflows (int total_downloaded)
         \<or> (case expected_size of None \<Rightarrow> False | Some n \<Rightarrow> n \<noteq> 0 \<and> float_overflows n)
      then Some OverflowError else None)"

text \<open>
  The loop of lines 119-131. \<^verbatim>\<open>resp.read\<close> returns the next chunk, returns \<^verbatim>\<open>b''\<close> at
  the end of the stream (\<^verbatim>\<open>break\<close>), or raises; \<^verbatim>\<open>f.write\<close> appends the chunk or
  raises; then \<^verbatim>\<open>total_downloaded\<close> grows by the length of the chunk and the progress
  line is computed.
\<close>

fun write_chunks ::
  "env \<Rightarrow> path \<Rightarrow> int option \<Rightarrow> bytes list \<Rightarrow> exn option \<Rightarrow> nat \<Rightarrow> world
     \<Rightarrow> exn option \<times> world" where
  "write_chunks env p expected_size [] err total_downloaded w = (err, w)"
| "write_chunks env p expected_size (c # cs) err total_downloaded w =
     (if c = [] then (None, w)
      else
        (case fs_error env (files w) (WriteChunk p c) of
           Some e \<Rightarrow> (Some e, w)
         | None \<Rightarrow>
             (let w1 = set_files ((files w)(p \<mapsto> content_of w p @ c)) w;
                  total1 = total_downloaded + length c
              in case progress_error total1 expected_size of
                   Some e \<Rightarrow> (Some e, w1)
                 | None \<Rightarrow> write_chunks env p expected_size cs err total1 w1)))"

text \<open>\<^verbatim>\<open>os.replace(src, dst)\<close>: the file moves in one step.\<close>

definition os_replace :: "env \<Rightarrow> path \<Rightarrow> path \<Rightarrow> world \<Rightarrow> exn option \<times> world" where
  "os_replace env src dst w =
     (case files w src of
        None \<Rightarrow> (Some OSError, w)
      | Some b \<Rightarrow>
          (case fs_error env (files w) (Replace src dst) of
             Some e \<Rightarrow> (Some e, w)
           | None \<Rightarrow> (None, set_files ((files w)(src := None, dst \<mapsto> b)) w)))"

text \<open>\<^verbatim>\<open>os.makedirs(outdir, exist_ok=True)\<close>: directories are not files of the model.\<close>

definition os_makedirs :: "env \<Rightarrow> path \<Rightarrow> world \<Rightarrow> exn option \<times> world" where
  "os_makedirs env d w =
     (case fs_error env (files w) (Makedirs d) of Some e \<Rightarrow> (Some e, w) | None \<Rightarrow> (None, w))"

section \<open>Numbers in headers\<close>

text \<open>
  \<^verbatim>\<open>str.isdigit\<close> holds for a non-empty string of digit characters; below 256 these are
  0-9 and the superscripts 0xB2, 0xB3, 0xB9. \<^verbatim>\<open>int\<close> reads a string of the digits 0-9
  and raises \<^verbatim>\<open>ValueError\<close> on a superscript digit, and on a string of more than
  \<^verbatim>\<open>sys.int_max_str_digits\<close> digits (4300 unless changed; leading zeros count). The
  program calls \<^verbatim>\<open>int\<close> only on strings that passed \<^verbatim>\<open>isdigit\<close>, so signs, blanks and
  underscores never reach it.
\<close>

definition is_ascii_digit :: "char \<Rightarrow> bool" where
  "is_ascii_digit c = (let n = of_char c :: nat in 48 \<le> n \<and> n \<le> 57)"

definition is_digit_char :: "char \<Rightarrow> bool" where
  "is_digit_char c = (let n = of_char c :: nat in (48 \<le> n \<and> n \<le> 57) \<or> n = 178 \<or> n = 179 \<or> n = 185)"

definition py_isdigit :: "string \<Rightarrow> bool" where
  "py_isdigit s = (s \<noteq> [] \<and> list_all is_digit_char s)"

definition decimal :: "string \<Rightarrow> int" where
  "decimal s = foldl (\<lambda>a c. 10 * a + (int (of_char c) - 48)) 0 s"

definition int_max_str_digits :: nat where
  "int_max_str_digits = 4300"

definition py_int :: "string \<Rightarrow> exn + int" where
  "py_int s =
     (if s \<noteq> [] \<and> list_all is_ascii_digit s \<and> length s \<le> int_max_str_digits
      then Inr (decimal s) else Inl ValueError)"

section \<open>The transfer\<close>

text \<open>
  \<^verbatim>\<open>head_request_length\<close> (lines 78-88). The \<^verbatim>\<open>try\<close> body is the \<^verbatim>\<open>case\<close>; every exception
  in it, the \<^verbatim>\<open>ValueError\<close> of \<^verbatim>\<open>int\<close> included, ends in \<^verbatim>\<open>return None\<close>.
\<close>

definition head_request_length :: "env \<Rightarrow> json \<Rightarrow> world \<Rightarrow> int option \<times> world" where
  "head_request_length env url w =
     (let req = \<lparr>req_method = HEAD, req_url = url, req_range = None\<rparr>;
          w1 = w\<lparr>requests := requests w @ [req]\<rparr>
      in case urlopen env req of
           Inl e \<Rightarrow> (None, w1)
         | Inr resp \<Rightarrow>
             (case header resp ''Content-Length'' of
                None \<Rightarrow> (None, w1)
              | Some l \<Rightarrow>
                  if py_isdigit l
                  then (case py_int l of Inl e \<Rightarrow> (None, w1) | Inr n \<Rightarrow> (Some n, w1))
                  else (None, w1)))"

text \<open>Lines 110-115: the total size, taken from the response when the caller gave none.\<close>

definition infer_expected_size :: "nat \<Rightarrow> int option \<Rightarrow> response \<Rightarrow> exn + int option" where
  "infer_expected_size existing expected_size resp =
     (case expected_size of
        Some n \<Rightarrow> Inr (Some n)
      | None \<Rightarrow>
          (case header resp ''Content-Length'' of
             None \<Rightarrow> Inr None
           | Some cl \<Rightarrow>
               if cl \<noteq> [] \<and> py_isdigit cl
               then (case py_int cl of Inl e \<Rightarrow> Inl e | Inr n \<Rightarrow> Inr (Some (int existing + n)))
               else Inr None))"

text \<open>
  The \<^verbatim>\<open>try\<close> body of \<^verbatim>\<open>ranged_download\<close> (lines 102-137): the exception it raises, if
  any, and the world it leaves. \<^verbatim>\<open>total_downloaded\<close> starts at the offset kept.
\<close>

definition try_download ::
  "env \<Rightarrow> json \<Rightarrow> path \<Rightarrow> path \<Rightarrow> nat \<Rightarrow> int option \<Rightarrow> world \<Rightarrow> exn option \<times> world" where
  "try_download env url tmp_path dest_path existing expected_size w =
     (let req = \<lparr>req_method = GET, req_url = url,
                 req_range = (if existing > 0 then Some existing else None)\<rparr>;
          w1 = w\<lparr>requests := requests w @ [req]\<rparr>
      in case urlopen env req of
           Inl e \<Rightarrow> (Some e, w1)
         | Inr resp \<Rightarrow>
             (let existing' =
                    (if existing > 0 \<and> status resp \<noteq> 206 \<and> status resp \<noteq> 200 then 0 else existing)
              in case infer_expected_size existing' expected_size resp of
                   Inl e \<Rightarrow> (Some e, w1)
                 | Inr known_size \<Rightarrow>
                     (case open_staging env tmp_path (existing' > 0) w1 of
                        (Some e, w2) \<Rightarrow> (Some e, w2)
                      | (None, w2) \<Rightarrow>
                          (case write_chunks env tmp_path known_size (body resp)
                                  (body_error resp) existing' w2 of
                             (Some e, w3) \<Rightarrow> (Some e, w3)
                           | (None, w3) \<Rightarrow> os_replace env tmp_path dest_path w3))))"

text \<open>
  \<^verbatim>\<open>ranged_download\<close> (lines 90-140): \<^verbatim>\<open>True\<close> on success, \<^verbatim>\<open>False\<close> after an exception,
  which is reported on the error stream. \<open>existing_bytes\<close> is lines 93-95.
\<close>

definition existing_bytes :: "world \<Rightarrow> path \<Rightarrow> nat" where
  "existing_bytes w tmp_path = (if path_exists w tmp_path then length (content_of w tmp_path) else 0)"

definition ranged_download ::
  "env \<Rightarrow> json \<Rightarrow> path \<Rightarrow> int option \<Rightarrow> world \<Rightarrow> bool \<times> world" where
  "ranged_download env url dest_path expected_size w =
     (let tmp_path = dest_path @ ''.part'';
          existing = existing_bytes w tmp_path
      in case try_download env url tmp_path dest_path existing expected_size w of
           (None, w') \<Rightarrow> (True, w')
         | (Some e, w') \<Rightarrow> (False, print_line (ErrorDownload e) w'))"

section \<open>One descriptor\<close>

text \<open>
  \<^verbatim>\<open>sanitize_filename\<close> (lines 63-64): each of the characters
  \<^verbatim>\<open>\ / : * ? " < > |\<close> becomes an underscore; \<^verbatim>\<open>re.sub\<close> raises \<^verbatim>\<open>TypeError\<close> on a name that
  is not a string.
\<close>

definition sanitize_char :: "char \<Rightarrow> char" where
  "sanitize_char c =
     (if c = CHR 0x5C \<or> c = CHR ''/'' \<or> c = CHR '':'' \<or> c = CHR ''*'' \<or> c = CHR ''?''
         \<or> c = CHR 0x22 \<or> c = CHR ''<'' \<or> c = CHR ''>'' \<or> c = CHR ''|''
      then CHR ''_'' else c)"

fun sanitize_filename :: "json \<Rightarrow> exn + string" where
  "sanitize_filename (JStr name) = Inr (map sanitize_char name)"
| "sanitize_filename _ = Inl TypeError"

text \<open>\<^verbatim>\<open>os.path.join(outdir, filename)\<close> on a POSIX system.\<close>

definition path_join :: "path \<Rightarrow> string \<Rightarrow> path" where
  "path_join a b =
     (if b \<noteq> [] \<and> hd b = CHR ''/'' then b
      else if a = [] \<or> last a = CHR ''/'' then a @ b
      else a @ ''/'' @ b)"

text \<open>
  \<^verbatim>\<open>isinstance(expected_size, int)\<close>: \<^verbatim>\<open>bool\<close> is a subclass of \<^verbatim>\<open>int\<close> in Python, so
  \<^verbatim>\<open>True\<close> and \<^verbatim>\<open>False\<close> pass the test and compare as 1 and 0.
\<close>

fun isinstance_int :: "json \<Rightarrow> bool" where
  "isinstance_int (JInt n) = True"
| "isinstance_int (JBool b) = True"
| "isinstance_int _ = False"

fun int_value :: "json \<Rightarrow> int" where
  "int_value (JInt n) = n"
| "int_value (JBool b) = (if b then 1 else 0)"
| "int_value _ = 0"

text \<open>Lines 150-155: the declared size when it is an integer, else the HEAD request.\<close>

definition resolve_expected_size ::
  "env \<Rightarrow> (string \<times> json) list \<Rightarrow> json \<Rightarrow> world \<Rightarrow> int option \<times> world" where
  "resolve_expected_size env kvs url w =
     (let v = dict_get kvs ''file_size_bytes'' in
      if isinstance_int v then (Some (int_value v), w) else head_request_length env url w)"

text \<open>\<^verbatim>\<open>s.lower()\<close> on a Python object: only a string has the method.\<close>

fun str_lower :: "json \<Rightarrow> exn + string" where
  "str_lower (JStr s) = Inr (lower s)"
| "str_lower _ = Inl AttributeError"

text \<open>
  Lines 162-171, the test made on a file that is already at the destination. The
  checksum comparison sits in a \<^verbatim>\<open>try\<close>; an exception there gives \<^verbatim>\<open>sha_ok = False\<close>.
  An exception of \<^verbatim>\<open>getsize\<close> is not caught.
\<close>

definition sha_ok_existing :: "env \<Rightarrow> (string \<times> json) list \<Rightarrow> path \<Rightarrow> world \<Rightarrow> bool" where
  "sha_ok_existing env kvs dest_path w =
     (if has_key ''sha1sum'' kvs \<and> truthy (dict_get kvs ''sha1sum'')
      then
        (case sha1_of_file env w dest_path of
           Inl e \<Rightarrow> False
         | Inr got \<Rightarrow>
             (case str_lower (dict_get kvs ''sha1sum'') of
                Inl e \<Rightarrow> False
              | Inr want \<Rightarrow> lower got = want))
      else True)"

definition existing_verified ::
  "env \<Rightarrow> (string \<times> json) list \<Rightarrow> path \<Rightarrow> int option \<Rightarrow> world \<Rightarrow> exn + bool" where
  "existing_verified env kvs dest_path expected_size w =
     (case (case expected_size of
              None \<Rightarrow> Inr True
            | Some n \<Rightarrow> (case getsize w dest_path of Inl e \<Rightarrow> Inl e | Inr sz \<Rightarrow> Inr (sz = n))) of
        Inl e \<Rightarrow> Inl e
      | Inr size_ok \<Rightarrow> Inr (size_ok \<and> sha_ok_existing env kvs dest_path w))"

text \<open>Lines 181-192, the checks after a download; nothing here is in a \<^verbatim>\<open>try\<close>.\<close>

definition post_verify ::
  "env \<Rightarrow> (string \<times> json) list \<Rightarrow> string \<Rightarrow> path \<Rightarrow> int option \<Rightarrow> world \<Rightarrow> exn option \<times> world" where
  "post_verify env kvs filename dest_path expected_size w =
     (case (case expected_size of
              None \<Rightarrow> Inr w
            | Some n \<Rightarrow>
                (case getsize w dest_path of
                   Inl e \<Rightarrow> Inl e
                 | Inr sz \<Rightarrow> Inr (if sz \<noteq> n then print_line (WarnSize filename) w else w))) of
        Inl e \<Rightarrow> (Some e, w)
      | Inr w1 \<Rightarrow>
          (let sha = dict_get kvs ''sha1sum'' in
           if truthy sha
           then
             (case sha1_of_file env w1 dest_path of
                Inl e \<Rightarrow> (Some e, w1)
              | Inr got \<Rightarrow>
                  (case str_lower sha of
                     Inl e \<Rightarrow> (Some e, w1)
                   | Inr want \<Rightarrow>
                       (None, print_line (if lower got \<noteq> want then WarnSha1 filename
                                          else OkSha1 filename) w1)))
           else (None, w1)))"

text \<open>
  \<^verbatim>\<open>download_one\<close> from line 157 on, with the name, the address and the expected size
  already determined.
\<close>

definition download_sized ::
  "env \<Rightarrow> (string \<times> json) list \<Rightarrow> string \<Rightarrow> json \<Rightarrow> int option \<Rightarrow> path \<Rightarrow> bool \<Rightarrow> world
     \<Rightarrow> exn option \<times> world" where
  "download_sized env kvs filename url expected_size outdir verify w =
     (let dest_path = path_join outdir filename in
      case os_makedirs env outdir w of
        (Some e, w1) \<Rightarrow> (Some e, w1)
      | (None, w1) \<Rightarrow>
          (case (if path_exists w1 dest_path \<and> verify
                 then existing_verified env kvs dest_path expected_size w1 else Inr False) of
             Inl e \<Rightarrow> (Some e, w1)
           | Inr True \<Rightarrow> (None, print_line (OkExists filename) w1)
           | Inr False \<Rightarrow>
               (case ranged_download env url dest_path expected_size
                       (print_line (InfoDownloading filename) w1) of
                  (False, w2) \<Rightarrow> (None, print_line (Fail filename) w2)
                | (True, w2) \<Rightarrow>
                    if verify then post_verify env kvs filename dest_path expected_size w2
                    else (None, w2))))"

text \<open>
  \<^verbatim>\<open>download_one\<close> (lines 142-192): the exception that leaves it, if any, and the world.
\<close>

fun download_one :: "env \<Rightarrow> json \<Rightarrow> path \<Rightarrow> bool \<Rightarrow> world \<Rightarrow> exn option \<times> world" where
  "download_one env (JDict kvs) outdir verify w =
     (case sanitize_filename (dict_get_default kvs ''filename'' (JStr ''unknown.vrs'')) of
        Inl e \<Rightarrow> (Some e, w)
      | Inr filename \<Rightarrow>
          (let url = dict_get kvs ''download_url'' in
           if \<not> truthy url then (None, print_line (SkipNoUrl filename) w)
           else
             (case resolve_expected_size env kvs url w of
                (expected_size, w1) \<Rightarrow>
                  download_sized env kvs filename url expected_size outdir verify w1)))"
| "download_one env _ outdir verify w = (Some AttributeError, w)"

section \<open>Workers and the dispatcher\<close>

text \<open>
  \<^verbatim>\<open>worker\<close> (lines 194-202) on a queue: \<^verbatim>\<open>None\<close> is the sentinel. The number is the
  queue's count of unfinished tasks, which \<^verbatim>\<open>task_done\<close> lowers. The \<^verbatim>\<open>try\<close> has a
  \<^verbatim>\<open>finally\<close> and no \<^verbatim>\<open>except\<close>: an exception of \<^verbatim>\<open>download_one\<close> leaves the loop after
  \<^verbatim>\<open>task_done\<close> and ends the thread. On an empty queue \<^verbatim>\<open>q.get()\<close> waits.
\<close>

datatype worker_end = Waiting | Exited | Died exn

fun worker ::
  "env \<Rightarrow> path \<Rightarrow> bool \<Rightarrow> json option list \<Rightarrow> nat \<Rightarrow> world
     \<Rightarrow> worker_end \<times> json option list \<times> nat \<times> world" where
  "worker env outdir verify [] unfinished w = (Waiting, [], unfinished, w)"
| "worker env outdir verify (None # q) unfinished w = (Exited, q, unfinished, w)"
| "worker env outdir verify (Some item # q) unfinished w =
     (case download_one env item outdir verify w of
        (Some e, w') \<Rightarrow> (Died e, q, unfinished - 1, w')
      | (None, w') \<Rightarrow> worker env outdir verify q (unfinished - 1) w')"

text \<open>
  Lines 243-260 with one worker thread (\<^verbatim>\<open>--workers 1\<close> or less): with a single consumer
  the order of \<^verbatim>\<open>put\<close> and \<^verbatim>\<open>get\<close> does not change what the worker does, so the queue is
  filled first. \<^verbatim>\<open>q.join()\<close> returns when no task is unfinished; then the sentinel is
  sent and the thread is joined. When the thread has died with tasks unfinished,
  \<^verbatim>\<open>q.join()\<close> never returns.
\<close>

datatype run_end = Returned | Hangs

definition run_one_worker :: "env \<Rightarrow> path \<Rightarrow> bool \<Rightarrow> json list \<Rightarrow> world \<Rightarrow> run_end \<times> world" where
  "run_one_worker env outdir verify entries w =
     (case worker env outdir verify (map Some entries) (length entries) w of
        (how, q, unfinished, w') \<Rightarrow> (if unfinished = 0 then Returned else Hangs, w'))"

section \<open>The command line\<close>

record args =
  json_path :: string
  outdir :: path
  workers :: int
  skip_existing :: bool
  no_verify :: bool
  max_files :: int

text \<open>
  What \<^verbatim>\<open>main\<close> (lines 215-241) hands to the worker threads, for the parsed document
  \<open>data\<close>: nothing when no entry is eligible, else the \<^verbatim>\<open>verify\<close> flag, the number of
  threads and the entries put on the queue, in order.
\<close>

record plan =
  plan_verify :: bool
  plan_threads :: nat
  plan_queue :: "json list"

definition main_plan :: "args \<Rightarrow> json \<Rightarrow> exn + plan option" where
  "main_plan a data =
     (if json_path a = [] then Inl ValueError
      else
        (case collect_vrs (recursive_find_entries data) of
           Inl e \<Rightarrow> Inl e
         | Inr entries \<Rightarrow>
             if entries = [] then Inr None
             else
               Inr (Some \<lparr>plan_verify = (\<not> no_verify a \<and> \<not> skip_existing a),
                          plan_threads = nat (max 1 (workers a)),
                          plan_queue = (if max_files a > 0 then take (nat (max_files a)) entries
                                        else entries)\<rparr>)))"

section \<open>The specification's notion of an already satisfied file\<close>





section \<open>The steps of a transfer\<close>




definition end_error :: "response \<Rightarrow> exn option" where
  "end_error resp = (if list_all (\<lambda>c. c \<noteq> []) (body resp) then body_error resp else None)"

definition staged ::
  "(path \<Rightarrow> bytes option) \<Rightarrow> path \<Rightarrow> bytes \<Rightarrow> bytes list \<Rightarrow> nat \<Rightarrow> (path \<Rightarrow> bytes option)" where
  "staged f p pre cs k = f(p \<mapsto> pre @ concat (take k cs))"






section \<open>Concrete inputs\<close>

text \<open>
  A file system on which no call fails; the SHA-1 digests of the file contents that
  occur below; a server that ignores \<^verbatim>\<open>Range\<close> and answers every request with status
  200, the given headers and the given chunks; a world holding the given files.
\<close>

definition quiet_fs :: "(path \<Rightarrow> bytes option) \<Rightarrow> fs_op \<Rightarrow> exn option" where
  "quiet_fs f op = None"

definition serve :: "(string \<times> string) list \<Rightarrow> bytes list \<Rightarrow> request \<Rightarrow> exn + response" where
  "serve hs chunks r = Inr \<lparr>status = 200, header = map_of hs, body = chunks, body_error = None\<rparr>"

definition sha1_of_examples :: "bytes \<Rightarrow> string" where
  "sha1_of_examples b =
     (case map_of [([], ''da39a3ee5e6b4b0d3255bfef95601890afd80709''),
                   (''AB'', ''06d945942aa26a61be18c3e22bf19bbca8dd2b5d''),
                   (''ABCD'', ''fb2f85c88567f3c8ce9b799c7c54642d0c7b41f6''),
                   (''ABABCD'', ''366ab339106643948e72d4e856370414c3a3e8d3'')] b of
        Some d \<Rightarrow> d
      | None \<Rightarrow> [])"

definition full_body_server :: env where
  "full_body_server =
     \<lparr>urlopen = serve [(''Content-Length'', ''4'')] [''ABCD''], fs_error = quiet_fs,
      sha1_hex = sha1_of_examples\<rparr>"


definition short_range_server :: env where
  "short_range_server =
     \<lparr>urlopen = (\<lambda>r. Inr \<lparr>status = 206, header = map_of [(''Content-Length'', ''3'')],
                             body = [''B''], body_error = None\<rparr>),
      fs_error = quiet_fs, sha1_hex = sha1_of_examples\<rparr>"


definition long_length_server :: env where
  "long_length_server =
     \<lparr>urlopen = serve [(''Content-Length'', replicate 4301 (CHR ''1''))] [''ABCD''],
      fs_error = quiet_fs, sha1_hex = sha1_of_examples\<rparr>"

definition superscript_length_server :: env where
  "superscript_length_server =
     \<lparr>urlopen = serve [(''Content-Length'', [CHR 0xB2])] [''ABCD''],
      fs_error = quiet_fs, sha1_hex = sha1_of_examples\<rparr>"

definition world_with :: "(path \<times> bytes) list \<Rightarrow> world" where
  "world_with fs = \<lparr>files = map_of fs, snapshots = [], requests = [], out = []\<rparr>"

definition entry_a :: json where
  "entry_a = JDict [(''filename'', JStr ''a.vrs''), (''download_url'', JStr ''http://x/a''),
                    (''file_size_bytes'', JInt 4)]"

definition entry_a_sha_number :: json where
  "entry_a_sha_number =
     JDict [(''filename'', JStr ''a.vrs''), (''download_url'', JStr ''http://x/a''),
            (''file_size_bytes'', JInt 4), (''sha1sum'', JInt 123)]"

definition entry_b :: json where
  "entry_b = JDict [(''filename'', JStr ''b.vrs''), (''download_url'', JStr ''http://x/b''),
                    (''file_size_bytes'', JInt 4)]"

definition entry_c_unsized :: "(string \<times> json) list" where
  "entry_c_unsized = [(''filename'', JStr ''c.vrs''), (''download_url'', JStr ''http://x/c''),
                      (''sha1sum'', JStr ''FB2F85C88567F3C8CE9B799C7C54642D0C7B41F6'')]"



definition entry_f_bool_size :: "(string \<times> json) list" where
  "entry_f_bool_size = [(''filename'', JStr ''f.vrs''), (''download_url'', JStr ''http://x/f''),
                        (''file_size_bytes'', JBool True)]"

definition entry_g_number_name :: "(string \<times> json) list" where
  "entry_g_number_name = [(''filename'', JInt 7), (''download_url'', JStr ''http://x/g'')]"

definition skip_existing_args :: args where
  "skip_existing_args =
     \<lparr>json_path = ''urls.json'', outdir = ''out'', workers = 1, skip_existing = True,
      no_verify = False, max_files = - 1\<rparr>"

definition first_two_args :: args where
  "first_two_args =
     \<lparr>json_path = ''urls.json'', outdir = ''out'', workers = 1, skip_existing = False,
      no_verify = False, max_files = 2\<rparr>"

section \<open>Changes confined to the staging file\<close>

text \<open>
  \<open>staging_only p w w'\<close>: from \<open>w\<close> to \<open>w'\<close> the files changed only at path \<open>p\<close>, in
  every state passed through.
\<close>

definition staging_only :: "path \<Rightarrow> world \<Rightarrow> world \<Rightarrow> bool" where
  "staging_only p w w' =
     (\<exists>new. snapshots w' = snapshots w @ new
        \<and> list_all (\<lambda>f. \<forall>q. q = p \<or> f q = files w q) new
        \<and> (if new = [] then files w' = files w else last new = files w'))"

lemma staging_only_refl: "staging_only p w w"
  by (simp add: staging_only_def)

lemma staging_only_files:
  assumes "staging_only p w w'" and "q \<noteq> p"
  shows "files w' q = files w q"
proof -
  from assms(1) obtain new where n: "snapshots w' = snapshots w @ new"
      "list_all (\<lambda>f. \<forall>q. q = p \<or> f q = files w q) new"
      "if new = [] then files w' = files w else last new = files w'"
    unfolding staging_only_def by blast
  show ?thesis
  proof (cases "new = []")
    case True
    with n(3) show ?thesis by simp
  next
    case False
    then have "last new \<in> set new" by simp
    with n(2) have "\<forall>q. q = p \<or> last new q = files w q" by (simp add: list_all_iff)
    with False n(3) assms(2) show ?thesis by auto
  qed
qed

lemma staging_only_trans:
  assumes "staging_only p w w1" and "staging_only p w1 w2"
  shows "staging_only p w w2"
proof -
  from assms(1) obtain n1 where a: "snapshots w1 = snapshots w @ n1"
      "list_all (\<lambda>f. \<forall>q. q = p \<or> f q = files w q) n1"
      "if n1 = [] then files w1 = files w else last n1 = files w1"
    unfolding staging_only_def by blast
  from assms(2) obtain n2 where b: "snapshots w2 = snapshots w1 @ n2"
      "list_all (\<lambda>f. \<forall>q. q = p \<or> f q = files w1 q) n2"
      "if n2 = [] then files w2 = files w1 else last n2 = files w2"
    unfolding staging_only_def by blast
  have same: "\<And>q. q \<noteq> p \<Longrightarrow> files w1 q = files w q"
    using staging_only_files [OF assms(1)] by simp
  have "list_all (\<lambda>f. \<forall>q. q = p \<or> f q = files w q) n2"
    using b(2) same unfolding list_all_iff by metis
  with a b have "snapshots w2 = snapshots w @ (n1 @ n2)
      \<and> list_all (\<lambda>f. \<forall>q. q = p \<or> f q = files w q) (n1 @ n2)
      \<and> (if n1 @ n2 = [] then files w2 = files w else last (n1 @ n2) = files w2)"
    by (auto split: if_splits)
  then show ?thesis unfolding staging_only_def by blast
qed

lemma staging_only_set_files:
  "staging_only p w (set_files ((files w)(p \<mapsto> c)) w)"
  unfolding staging_only_def set_files_def
  by (rule exI [of _ "[(files w)(p \<mapsto> c)]"]) simp

lemma staging_only_base:
  assumes "files w0 = files w" and "snapshots w0 = snapshots w" and "staging_only p w0 w'"
  shows "staging_only p w w'"
  using assms(3) unfolding staging_only_def assms(1,2) .

lemma write_chunks_staging_only:
  "write_chunks env p known cs err n w = (r, w') \<Longrightarrow> staging_only p w w'"
proof (induction cs arbitrary: w n)
  case Nil
  then show ?case by (simp add: staging_only_refl)
next
  case (Cons c cs)
  show ?case
  proof (cases "c = [] \<or> fs_error env (files w) (WriteChunk p c) \<noteq> None")
    case True
    with Cons.prems have "w' = w" by (auto split: if_splits)
    then show ?thesis by (simp add: staging_only_refl)
  next
    case False
    let ?w1 = "set_files ((files w)(p \<mapsto> content_of w p @ c)) w"
    show ?thesis
    proof (cases "progress_error (n + length c) known")
      case (Some e)
      with False Cons.prems have "w' = ?w1" by (auto simp: Let_def)
      then show ?thesis by (simp add: staging_only_set_files)
    next
      case None
      with False Cons.prems
      have "write_chunks env p known cs err (n + length c) ?w1 = (r, w')"
        by (auto simp: Let_def)
      then have "staging_only p ?w1 w'" by (rule Cons.IH)
      then show ?thesis by (rule staging_only_trans [OF staging_only_set_files])
    qed
  qed
qed

lemma write_chunks_log:
  "write_chunks env p known cs err n w = (r, w') \<Longrightarrow> requests w' = requests w \<and> out w' = out w"
  by (induction cs arbitrary: w n)
     (auto simp: set_files_def Let_def split: if_splits option.splits)

lemma write_chunks_content:
  "write_chunks env p known cs err n w = (None, w') \<Longrightarrow>
     content_of w' p = content_of w p @ concat (takeWhile (\<lambda>c. c \<noteq> []) cs)"
proof (induction cs arbitrary: w n)
  case Nil
  then show ?case by simp
next
  case (Cons c cs)
  show ?case
  proof (cases "c = []")
    case True
    with Cons.prems show ?thesis by simp
  next
    case False
    let ?w1 = "set_files ((files w)(p \<mapsto> content_of w p @ c)) w"
    from False Cons.prems
    have "write_chunks env p known cs err (n + length c) ?w1 = (None, w')"
      by (auto simp: Let_def split: option.splits)
    then have "content_of w' p = content_of ?w1 p @ concat (takeWhile (\<lambda>c. c \<noteq> []) cs)"
      by (rule Cons.IH)
    moreover have "content_of ?w1 p = content_of w p @ c"
      by (simp add: content_of_def set_files_def)
    ultimately show ?thesis using False by simp
  qed
qed

lemma write_chunks_ended:
  "write_chunks env p known cs err n w = (None, w') \<Longrightarrow> err = None \<or> [] \<in> set cs"
  by (induction cs arbitrary: w n) (auto simp: Let_def split: if_splits option.splits)

lemma write_chunks_keeps:
  "write_chunks env p known cs err n w = (r, w') \<Longrightarrow> files w p \<noteq> None \<Longrightarrow> files w' p \<noteq> None"
  by (induction cs arbitrary: w n)
     (auto simp: set_files_def Let_def split: if_splits option.splits)

lemma open_staging_cases:
  assumes "open_staging env p a w = (r, w')"
  shows "(r \<noteq> None \<and> w' = w)
       \<or> (r = None \<and> w' = set_files ((files w)(p \<mapsto> (if a then content_of w p else []))) w)"
  using assms by (auto simp: open_staging_def split: option.splits)

lemma os_replace_cases:
  assumes "os_replace env src dst w = (r, w')"
  shows "(r \<noteq> None \<and> w' = w)
       \<or> (r = None \<and> (\<exists>b. files w src = Some b \<and> w' = set_files ((files w)(src := None, dst \<mapsto> b)) w))"
  using assms by (auto simp: os_replace_def split: option.splits)

lemma try_download_cases:
  assumes "try_download env url tmp dest existing expected w = (r, w')"
  defines "req \<equiv> \<lparr>req_method = GET, req_url = url, req_range = (if existing > 0 then Some existing else None)\<rparr>"
  shows "requests w' = requests w @ [req] \<and> out w' = out w \<and>
     ((r \<noteq> None \<and> staging_only tmp w w' \<and> (files w tmp \<noteq> None \<longrightarrow> files w' tmp \<noteq> None))
     \<or> (r = None \<and> (\<exists>resp w3. urlopen env req = Inr resp
            \<and> staging_only tmp w w3 \<and> snapshots w3 \<noteq> snapshots w
            \<and> (body_error resp = None \<or> [] \<in> set (body resp))
            \<and> files w3 tmp = Some ((if existing > 0 \<and> (status resp = 206 \<or> status resp = 200)
                                       then content_of w tmp else [])
                                      @ concat (takeWhile (\<lambda>c. c \<noteq> []) (body resp)))
            \<and> w' = set_files ((files w3)(tmp := None, dest \<mapsto> the (files w3 tmp))) w3)))"
proof -
  let ?w1 = "w\<lparr>requests := requests w @ [req]\<rparr>"
  have base: "\<And>v. staging_only tmp ?w1 v \<Longrightarrow> staging_only tmp w v"
    by (rule staging_only_base [of ?w1]) simp_all
  show ?thesis
  proof (cases "urlopen env req")
    case (Inl e)
    with assms(1) have "r = Some e" "w' = ?w1"
      by (simp_all add: try_download_def req_def Let_def)
    then show ?thesis using base [OF staging_only_refl] by simp
  next
    case (Inr resp)
    let ?ex = "if existing > 0 \<and> status resp \<noteq> 206 \<and> status resp \<noteq> 200 then 0 else existing"
    let ?pre = "if existing > 0 \<and> (status resp = 206 \<or> status resp = 200) then content_of w tmp else []"
    show ?thesis
    proof (cases "infer_expected_size ?ex expected resp")
      case (Inl e)
      with Inr assms(1) have "r = Some e" "w' = ?w1"
        by (simp_all add: try_download_def req_def Let_def)
      then show ?thesis using base [OF staging_only_refl] by simp
    next
      case sz: (Inr known)
      obtain r2 w2 where o: "open_staging env tmp (?ex > 0) ?w1 = (r2, w2)" by force
      show ?thesis
      proof (cases r2)
        case (Some e)
        with o open_staging_cases [OF o] have "w2 = ?w1" by simp
        moreover from Inr sz o Some assms(1) have "r = Some e" "w' = w2"
          by (simp_all add: try_download_def req_def Let_def)
        ultimately show ?thesis using base [OF staging_only_refl] by simp
      next
        case None
        with open_staging_cases [OF o]
        have w2: "w2 = set_files ((files ?w1)(tmp \<mapsto> (if ?ex > 0 then content_of ?w1 tmp else []))) ?w1"
          by simp
        have w2_log: "requests w2 = requests w @ [req]" "out w2 = out w"
          by (simp_all add: w2 set_files_def)
        have w2_tmp: "files w2 tmp = Some ?pre"
          by (auto simp: w2 set_files_def content_of_def)
        have w2_snap: "snapshots w2 \<noteq> snapshots w"
          by (simp add: w2 set_files_def)
        have w2_only: "staging_only tmp w w2"
          unfolding w2 by (rule base [OF staging_only_set_files])
        obtain r3 w3 where l: "write_chunks env tmp known (body resp) (body_error resp) ?ex w2 = (r3, w3)"
          by force
        have w3_log: "requests w3 = requests w @ [req]" "out w3 = out w"
          using write_chunks_log [OF l] w2_log by simp_all
        have w3_only: "staging_only tmp w w3"
          using staging_only_trans [OF w2_only write_chunks_staging_only [OF l]] .
        have w3_keeps: "files w3 tmp \<noteq> None"
          using write_chunks_keeps [OF l] w2_tmp by simp
        have w3_snap: "snapshots w3 \<noteq> snapshots w"
          using write_chunks_staging_only [OF l] w2_snap staging_only_trans [OF w2_only]
          by (auto simp: staging_only_def w2 set_files_def)
        show ?thesis
        proof (cases r3)
          case (Some e)
          with Inr sz o None l assms(1) have "r = Some e" "w' = w3"
            by (simp_all add: try_download_def req_def Let_def)
          then show ?thesis using w3_log w3_only w3_keeps by simp
        next
          case r3: None
          from l r3 have content: "content_of w3 tmp = content_of w2 tmp @ concat (takeWhile (\<lambda>c. c \<noteq> []) (body resp))"
            using write_chunks_content by blast
          from l r3 have ended: "body_error resp = None \<or> [] \<in> set (body resp)"
            using write_chunks_ended by blast
          from w3_keeps content w2_tmp
          have w3_tmp: "files w3 tmp = Some (?pre @ concat (takeWhile (\<lambda>c. c \<noteq> []) (body resp)))"
            by (auto simp: content_of_def)
          obtain r4 w4 where p: "os_replace env tmp dest w3 = (r4, w4)" by force
          from Inr sz o None l r3 p assms(1) have fin: "r = r4" "w' = w4"
            by (simp_all add: try_download_def req_def Let_def)
          show ?thesis
          proof (cases r4)
            case (Some e)
            with os_replace_cases [OF p] have "w4 = w3" by simp
            with fin Some show ?thesis using w3_log w3_only w3_keeps by simp
          next
            case None
            with os_replace_cases [OF p] w3_tmp
            have "w4 = set_files ((files w3)(tmp := None, dest \<mapsto> the (files w3 tmp))) w3"
              by auto
            with fin have w': "w' = set_files ((files w3)(tmp := None, dest \<mapsto> the (files w3 tmp))) w3"
              by simp
            have log: "requests w' = requests w @ [req] \<and> out w' = out w"
              using w3_log by (simp add: w' set_files_def)
            from Inr w3_only w3_snap ended w3_tmp w'
            have "\<exists>resp w3. urlopen env req = Inr resp
                \<and> staging_only tmp w w3 \<and> snapshots w3 \<noteq> snapshots w
                \<and> (body_error resp = None \<or> [] \<in> set (body resp))
                \<and> files w3 tmp = Some ((if existing > 0 \<and> (status resp = 206 \<or> status resp = 200)
                                       then content_of w tmp else [])
                                      @ concat (takeWhile (\<lambda>c. c \<noteq> []) (body resp)))
                \<and> w' = set_files ((files w3)(tmp := None, dest \<mapsto> the (files w3 tmp))) w3"
              by blast
            with log fin(1) None show ?thesis by blast
          qed
        qed
      qed
    qed
  qed
qed

lemma staging_only_target:
  assumes "files w1 = files w'" and "snapshots w1 = snapshots w'" and "staging_only p w w'"
  shows "staging_only p w w1"
  using assms(3) unfolding staging_only_def assms(1,2) .

lemma staging_only_history:
  assumes "staging_only p w w'" and "d \<noteq> p"
  shows "\<exists>new. snapshots w' = snapshots w @ new \<and> list_all (\<lambda>f. f d = files w d) new
           \<and> (if new = [] then files w' = files w else last new = files w')"
proof -
  from assms(1) obtain new where n: "snapshots w' = snapshots w @ new"
      "list_all (\<lambda>f. \<forall>q. q = p \<or> f q = files w q) new"
      "if new = [] then files w' = files w else last new = files w'"
    unfolding staging_only_def by blast
  from n(2) assms(2) have "list_all (\<lambda>f. f d = files w d) new"
    unfolding list_all_iff by metis
  with n(1,3) show ?thesis by blast
qed

lemma ranged_download_cases:
  assumes "ranged_download env url dest expected w = (ok, w')"
  defines "tmp \<equiv> dest @ ''.part''"
  defines "req \<equiv> \<lparr>req_method = GET, req_url = url,
                   req_range = (if existing_bytes w tmp > 0 then Some (existing_bytes w tmp) else None)\<rparr>"
  shows "requests w' = requests w @ [req] \<and>
     ((\<not> ok \<and> staging_only tmp w w' \<and> (files w tmp \<noteq> None \<longrightarrow> files w' tmp \<noteq> None)
         \<and> (\<exists>e. out w' = out w @ [ErrorDownload e]))
     \<or> (ok \<and> out w' = out w \<and> (\<exists>resp w3. urlopen env req = Inr resp
            \<and> staging_only tmp w w3 \<and> snapshots w3 \<noteq> snapshots w
            \<and> (body_error resp = None \<or> [] \<in> set (body resp))
            \<and> files w3 tmp = Some ((if existing_bytes w tmp > 0 \<and> (status resp = 206 \<or> status resp = 200)
                                       then content_of w tmp else [])
                                      @ concat (takeWhile (\<lambda>c. c \<noteq> []) (body resp)))
            \<and> w' = set_files ((files w3)(tmp := None, dest \<mapsto> the (files w3 tmp))) w3)))"
proof -
  obtain r v where t: "try_download env url tmp dest (existing_bytes w tmp) expected w = (r, v)"
    by force
  note c = try_download_cases [OF t, folded req_def]
  show ?thesis
  proof (cases r)
    case None
    with t assms(1) have "ok" "w' = v"
      by (simp_all add: ranged_download_def tmp_def Let_def)
    with c None show ?thesis by simp
  next
    case (Some e)
    with t assms(1) have ok: "\<not> ok" and w': "w' = print_line (ErrorDownload e) v"
      by (auto simp: ranged_download_def tmp_def Let_def)
    from c Some have v: "requests v = requests w @ [req]" "out v = out w"
        "staging_only tmp w v" "files w tmp \<noteq> None \<longrightarrow> files v tmp \<noteq> None"
      by simp_all
    have "staging_only tmp w w'"
      by (rule staging_only_target [OF _ _ v(3)]) (simp_all add: w' print_line_def)
    moreover have "requests w' = requests w @ [req]" "out w' = out w @ [ErrorDownload e]"
        "files w' = files v"
      using v(1,2) by (simp_all add: w' print_line_def)
    ultimately show ?thesis using ok v(4) by simp
  qed
qed

lemma example_resume_ok:
  "fst (ranged_download full_body_server (JStr ''http://x/a'') ''out/a.vrs'' None
          (world_with [(''out/a.vrs.part'', ''AB'')])) = True"
  by code_simp

lemma example_resume_result:
  "ranged_download full_body_server (JStr ''http://x/a'') ''out/a.vrs'' None
      (world_with [(''out/a.vrs.part'', ''AB'')])
   = (True, snd (ranged_download full_body_server (JStr ''http://x/a'') ''out/a.vrs'' None
                   (world_with [(''out/a.vrs.part'', ''AB'')])))"
  by (rule prod_eqI) (simp_all only: fst_conv snd_conv example_resume_ok)














lemma staged_elsewhere: "q \<noteq> p \<Longrightarrow> staged f p pre cs k q = f q"
  by (simp add: staged_def)



lemma example_fresh_ok:
  "fst (ranged_download full_body_server (JStr ''http://x/a'') ''out/a.vrs'' None (world_with []))
     = True"
  by code_simp

lemma example_fresh_result:
  "ranged_download full_body_server (JStr ''http://x/a'') ''out/a.vrs'' None (world_with [])
   = (True, snd (ranged_download full_body_server (JStr ''http://x/a'') ''out/a.vrs'' None
                   (world_with [])))"
  by (rule prod_eqI) (simp_all only: fst_conv snd_conv example_fresh_ok)



lemma ascii_digit_is_digit: "is_ascii_digit c \<Longrightarrow> is_digit_char c"
  by (simp add: is_ascii_digit_def is_digit_char_def Let_def)

lemma ascii_digits_pass_isdigit:
  "s \<noteq> [] \<Longrightarrow> list_all is_ascii_digit s \<Longrightarrow> py_isdigit s"
  by (simp add: py_isdigit_def list_all_iff ascii_digit_is_digit)

lemma head_request_length_value:
  "fst (head_request_length env url w) =
     (case urlopen env \<lparr>req_method = HEAD, req_url = url, req_range = None\<rparr> of
        Inl e \<Rightarrow> None
      | Inr resp \<Rightarrow>
          (case header resp ''Content-Length'' of
             None \<Rightarrow> None
           | Some l \<Rightarrow>
               if l \<noteq> [] \<and> list_all is_ascii_digit l \<and> length l \<le> int_max_str_digits
               then Some (decimal l) else None))"
  by (auto simp: head_request_length_def Let_def py_int_def ascii_digits_pass_isdigit
      split: sum.splits option.splits)

lemma head_request_length_world:
  "snd (head_request_length env url w) =
     w\<lparr>requests := requests w @ [\<lparr>req_method = HEAD, req_url = url, req_range = None\<rparr>]\<rparr>"
  by (auto simp: head_request_length_def Let_def split: sum.splits option.splits)

lemma absent_key_gives_none: "\<not> has_key k kvs \<Longrightarrow> dict_get kvs k = JNull"
  by (simp add: has_key_def dict_get_def dict_get_default_def)









lemma one_is_digit: "is_digit_char (CHR ''1'')"
  by code_simp

lemma long_digits_pass_isdigit: "py_isdigit (replicate 4301 (CHR ''1''))"
  by (auto simp: py_isdigit_def list_all_iff one_is_digit)

lemma long_length_gives_none:
  "fst (head_request_length long_length_server url w) = None"
  by (simp add: head_request_length_value long_length_server_def serve_def int_max_str_digits_def)

lemma extraction_filters_preorder:
  "recursive_find_entries d = filter looks_like_entry (preorder d)"
  "find_in_values kvs = filter looks_like_entry (preorder_values kvs)"
  "find_in_items xs = filter looks_like_entry (preorder_items xs)"
  by (induction d and kvs and xs rule: recursive_find_entries_find_in_values_find_in_items.induct)
    simp_all

lemma main_queue_is_first_n:
  assumes "json_path a \<noteq> []" and "collect_vrs (recursive_find_entries data) = Inr entries"
  shows "(0 < max_files a \<and> nat (max_files a) \<le> length entries \<longrightarrow>
           (\<exists>p. main_plan a data = Inr (Some p)
                \<and> plan_queue p = take (nat (max_files a)) entries
                \<and> length (plan_queue p) = nat (max_files a)
                \<and> entries = plan_queue p @ drop (nat (max_files a)) entries))
       \<and> (max_files a = - 1 \<longrightarrow>
           (if entries = [] then main_plan a data = Inr None
            else (\<exists>p. main_plan a data = Inr (Some p) \<and> plan_queue p = entries)))"
  using assms by (auto simp: main_plan_def)

lemma head_fallback_small_cases:
  "\<not> has_key ''file_size_bytes'' [(''filename'', JStr ''a.vrs''), (''download_url'', JStr [])]
   \<and> requests (snd (download_one full_body_server
            (JDict [(''filename'', JStr ''a.vrs''), (''download_url'', JStr [])]) ''out'' True
            (world_with []))) = []
   \<and> out (snd (download_one full_body_server
            (JDict [(''filename'', JStr ''a.vrs''), (''download_url'', JStr [])]) ''out'' True
            (world_with []))) = [SkipNoUrl ''a.vrs'']
   \<and> \<not> has_key ''file_size_bytes'' entry_g_number_name
   \<and> fst (download_one full_body_server (JDict entry_g_number_name) ''out'' True (world_with []))
       = Some TypeError
   \<and> requests (snd (download_one full_body_server (JDict entry_g_number_name) ''out'' True
                      (world_with []))) = []
   \<and> dict_get entry_f_bool_size ''file_size_bytes'' = JBool True
   \<and> requests (snd (download_one full_body_server (JDict entry_f_bool_size) ''out'' True
                      (world_with [])))
       = [\<lparr>req_method = GET, req_url = JStr ''http://x/f'', req_range = None\<rparr>]
   \<and> out (snd (download_one full_body_server (JDict entry_f_bool_size) ''out'' True
                 (world_with []))) = [InfoDownloading ''f.vrs'', WarnSize ''f.vrs'']
   \<and> py_isdigit [CHR 0xB2]
   \<and> fst (head_request_length superscript_length_server (JStr ''http://x/a'') (world_with []))
       = None"
  by code_simp

lemma end_error_none:
  "(end_error resp = None) = (body_error resp = None \<or> [] \<in> set (body resp))"
  by (auto simp: end_error_def list_all_iff)

section \<open>Claims\<close>

text \<open>
  C1. The claim: when a staging file with more than zero bytes exists and the server
  answers the range request with a full 200 body, the old bytes are discarded and the
  fresh response alone is written. The code keeps its offset for status 200 (line
  105 resets it only for a status that is neither 206 nor 200), opens the staging file
  for appending and promotes the old bytes followed by the whole body.
\<close>

theorem full_body_after_range_is_appended:
  assumes "files w (dest @ ''.part'') = Some old" and "old \<noteq> []"
    and "urlopen env \<lparr>req_method = GET, req_url = url, req_range = Some (length old)\<rparr> = Inr resp"
    and "status resp = 200"
    and "ranged_download env url dest expected w = (True, w')"
  shows "files w' dest = Some (old @ concat (takeWhile (\<lambda>c. c \<noteq> []) (body resp)))"
proof -
  let ?tmp = "dest @ ''.part''"
  let ?n = "existing_bytes w ?tmp"
  have ex: "?n = length old" "content_of w ?tmp = old"
    using assms(1) by (simp_all add: existing_bytes_def path_exists_def content_of_def)
  have pos: "?n > 0" using ex(1) assms(2) by simp
  from ranged_download_cases [OF assms(5)]
  obtain resp' w3 where a:
     "urlopen env \<lparr>req_method = GET, req_url = url,
                   req_range = (if ?n > 0 then Some ?n else None)\<rparr> = Inr resp'"
     "files w3 ?tmp = Some ((if ?n > 0 \<and> (status resp' = 206 \<or> status resp' = 200)
                                then content_of w ?tmp else [])
                             @ concat (takeWhile (\<lambda>c. c \<noteq> []) (body resp')))"
     "w' = set_files ((files w3)(?tmp := None, dest \<mapsto> the (files w3 ?tmp))) w3"
    by blast
  from a(1) pos ex(1) assms(3) have same: "resp' = resp" by simp
  from a(2) same assms(4) pos ex(2)
  have "files w3 ?tmp = Some (old @ concat (takeWhile (\<lambda>c. c \<noteq> []) (body resp)))" by simp
  with a(3) show ?thesis by (simp add: set_files_def)
qed

theorem full_body_after_range_is_appended_witness:
  "files (snd (ranged_download full_body_server (JStr ''http://x/a'') ''out/a.vrs'' None
                 (world_with [(''out/a.vrs.part'', ''AB'')]))) ''out/a.vrs'' = Some ''ABABCD''"
proof -
  let ?w = "world_with [(''out/a.vrs.part'', ''AB'')]"
  let ?resp = "\<lparr>status = 200, header = map_of [(''Content-Length'', ''4'')], body = [''ABCD''], body_error = None\<rparr>"
  have 1: "files ?w (''out/a.vrs'' @ ''.part'') = Some ''AB''" by (simp add: world_with_def)
  have 2: "''AB'' \<noteq> []" by simp
  have 3: "urlopen full_body_server \<lparr>req_method = GET, req_url = JStr ''http://x/a'', req_range = Some (length ''AB'')\<rparr> = Inr ?resp"
    by (simp add: full_body_server_def serve_def)
  have 4: "status ?resp = 200" by simp
  have 5: "ranged_download full_body_server (JStr ''http://x/a'') ''out/a.vrs'' None ?w
      = (True, snd (ranged_download full_body_server (JStr ''http://x/a'') ''out/a.vrs'' None ?w))"
    by (rule prod_eqI) (simp_all only: fst_conv snd_conv example_resume_ok)
  from full_body_after_range_is_appended [OF 1 2 3 4 5] show ?thesis by simp
qed

text \<open>
  C2. \<^verbatim>\<open>recursive_find_entries\<close> yields exactly the dict nodes that have both a
  \<^verbatim>\<open>filename\<close> and a \<^verbatim>\<open>download_url\<close> key, at any depth, children of a yielded dict
  included, in depth-first left-to-right order: its output is the pre-order list of all
  nodes of the document, filtered by that test.
\<close>

theorem recursive_find_entries_exact:
  "recursive_find_entries doc = filter looks_like_entry (preorder doc)"
  by (rule extraction_filters_preorder(1))

text \<open>
  C3. The claim: with \<^verbatim>\<open>--skip-existing\<close> a file already at the destination is accepted
  as it is and nothing is transferred. The flag only sets \<^verbatim>\<open>verify\<close> to false (line
  241), and with \<^verbatim>\<open>verify\<close> false \<^verbatim>\<open>download_one\<close> never takes the branch of line 160
  that returns early: the file that is already there is requested and downloaded again.
\<close>

theorem skip_existing_downloads_again:
  "main_plan skip_existing_args (JList [entry_a])
     = Inr (Some \<lparr>plan_verify = False, plan_threads = 1, plan_queue = [entry_a]\<rparr>)
   \<and> fst (download_one full_body_server entry_a ''out'' False
            (world_with [(''out/a.vrs'', ''ABCD'')])) = None
   \<and> requests (snd (download_one full_body_server entry_a ''out'' False
                      (world_with [(''out/a.vrs'', ''ABCD'')])))
       = [\<lparr>req_method = GET, req_url = JStr ''http://x/a'', req_range = None\<rparr>]
   \<and> out (snd (download_one full_body_server entry_a ''out'' False
                 (world_with [(''out/a.vrs'', ''ABCD'')])))
       = [InfoDownloading ''a.vrs'']"
  by code_simp

text \<open>
  C4. The claim: every error raised while a descriptor is processed is caught at the
  worker boundary, the thread lives on and the rest of the queue is processed. The
  worker has \<^verbatim>\<open>try ... finally\<close> and no \<^verbatim>\<open>except\<close>. The checksum comparison after a
  download (lines 186-189) is not in a \<^verbatim>\<open>try\<close>, unlike the same comparison before it
  (lines 167-170): a \<^verbatim>\<open>sha1sum\<close> that is a number raises \<^verbatim>\<open>AttributeError\<close>, the only
  worker thread dies, the second descriptor is never requested and one task stays
  unfinished, so \<^verbatim>\<open>q.join()\<close> does not return.
\<close>

theorem worker_dies_on_checksum_number:
  "fst (worker full_body_server ''out'' True [Some entry_a_sha_number, Some entry_b] 2
          (world_with [])) = Died AttributeError
   \<and> fst (snd (worker full_body_server ''out'' True [Some entry_a_sha_number, Some entry_b] 2
                 (world_with []))) = [Some entry_b]
   \<and> fst (run_one_worker full_body_server ''out'' True [entry_a_sha_number, entry_b]
            (world_with [])) = Hangs
   \<and> requests (snd (run_one_worker full_body_server ''out'' True [entry_a_sha_number, entry_b]
                      (world_with [])))
       = [\<lparr>req_method = GET, req_url = JStr ''http://x/a'', req_range = None\<rparr>]
   \<and> files (snd (run_one_worker full_body_server ''out'' True [entry_a_sha_number, entry_b]
                   (world_with []))) ''out/b.vrs'' = None
   \<and> fst (run_one_worker full_body_server ''out'' True [entry_a, entry_b] (world_with []))
       = Returned"
  by code_simp







text \<open>
  C7. The claim: the destination never holds a partial file, since it is only ever
  filled by the rename of a fully downloaded staging file. The first half holds, the
  second does not: the rename follows the end of the stream, not the arrival of all
  bytes, and a size that differs only leads to a warning afterwards (lines 183-184).
  Amended: in every state the files pass through during \<^verbatim>\<open>ranged_download\<close> the
  destination holds what it held before the call; it changes only in the last state of
  a successful call, by the rename, and then holds what the staging file held when the
  stream ended without an exception: the bytes resumed from, if any, followed by every
  chunk received. Whether these are all the bytes of the remote file is not checked.
\<close>

theorem destination_changes_only_by_final_rename:
  assumes "ranged_download env url dest expected w = (ok, w')"
  shows "\<exists>new. snapshots w' = snapshots w @ new \<and>
     (if ok
      then new \<noteq> [] \<and> last new = files w'
           \<and> list_all (\<lambda>f. f dest = files w dest) (butlast new)
           \<and> (\<exists>resp. urlopen env
                         \<lparr>req_method = GET, req_url = url,
                          req_range = (if existing_bytes w (dest @ ''.part'') > 0
                                       then Some (existing_bytes w (dest @ ''.part'')) else None)\<rparr>
                       = Inr resp
                \<and> (body_error resp = None \<or> [] \<in> set (body resp))
                \<and> files w' dest =
                    Some ((if existing_bytes w (dest @ ''.part'') > 0
                              \<and> (status resp = 206 \<or> status resp = 200)
                           then content_of w (dest @ ''.part'') else [])
                          @ concat (takeWhile (\<lambda>c. c \<noteq> []) (body resp))))
      else list_all (\<lambda>f. f dest = files w dest) new \<and> files w' dest = files w dest)"
proof (cases ok)
  case False
  let ?tmp = "dest @ ''.part''"
  from False ranged_download_cases [OF assms] have "staging_only ?tmp w w'" by blast
  from staging_only_history [OF this, of dest] staging_only_files [OF this, of dest]
  obtain new where n: "snapshots w' = snapshots w @ new" "list_all (\<lambda>f. f dest = files w dest) new"
      and d: "files w' dest = files w dest"
    by auto
  show ?thesis unfolding if_not_P [OF False] using n d by blast
next
  case True
  let ?tmp = "dest @ ''.part''"
  let ?req = "\<lparr>req_method = GET, req_url = url,
               req_range = (if existing_bytes w ?tmp > 0 then Some (existing_bytes w ?tmp) else None)\<rparr>"
  from True ranged_download_cases [OF assms]
  obtain resp w3 where s: "urlopen env ?req = Inr resp" "staging_only ?tmp w w3"
      "body_error resp = None \<or> [] \<in> set (body resp)"
      "files w3 ?tmp = Some ((if existing_bytes w ?tmp > 0 \<and> (status resp = 206 \<or> status resp = 200)
                               then content_of w ?tmp else [])
                             @ concat (takeWhile (\<lambda>c. c \<noteq> []) (body resp)))"
      "w' = set_files ((files w3)(?tmp := None, dest \<mapsto> the (files w3 ?tmp))) w3"
    by blast
  from staging_only_history [OF s(2), of dest]
  obtain new where n: "snapshots w3 = snapshots w @ new" "list_all (\<lambda>f. f dest = files w dest) new"
    by auto
  have snap: "snapshots w' = snapshots w @ (new @ [files w'])"
    by (simp add: s(5) set_files_def n(1))
  have dest: "files w' dest = Some ((if existing_bytes w ?tmp > 0 \<and> (status resp = 206 \<or> status resp = 200)
                               then content_of w ?tmp else [])
                             @ concat (takeWhile (\<lambda>c. c \<noteq> []) (body resp)))"
    by (simp add: s(5) set_files_def s(4))
  have "new @ [files w'] \<noteq> [] \<and> last (new @ [files w']) = files w'
       \<and> list_all (\<lambda>f. f dest = files w dest) (butlast (new @ [files w']))"
    using n(2) by simp
  with snap s(1,3) dest show ?thesis unfolding if_P [OF True] by blast
qed

theorem destination_changes_only_by_final_rename_witness:
  "\<exists>new. snapshots (snd (ranged_download full_body_server (JStr ''http://x/a'') ''out/a.vrs'' None
                            (world_with []))) = new
      \<and> new \<noteq> []
      \<and> list_all (\<lambda>f. f ''out/a.vrs'' = None) (butlast new)
      \<and> last new ''out/a.vrs'' = Some ''ABCD''"
proof -
  have "existing_bytes (world_with []) (''out/a.vrs'' @ ''.part'') = 0"
       "files (world_with []) ''out/a.vrs'' = None"
       "snapshots (world_with []) = []"
    by (simp_all add: existing_bytes_def path_exists_def content_of_def world_with_def)
  with destination_changes_only_by_final_rename [OF example_fresh_result]
  show ?thesis by (simp add: full_body_server_def serve_def)
qed

text \<open>
  The claim as stated fails for a transfer resumed after one byte of four, whose
  server announces the three bytes left and ends the stream after one: the destination
  receives a file of two bytes.
\<close>

theorem short_stream_is_promoted:
  "fst (ranged_download short_range_server (JStr ''http://x/a'') ''out/a.vrs'' (Some 4)
          (world_with [(''out/a.vrs.part'', ''A'')])) = True
   \<and> files (snd (ranged_download short_range_server (JStr ''http://x/a'') ''out/a.vrs'' (Some 4)
                   (world_with [(''out/a.vrs.part'', ''A'')]))) ''out/a.vrs'' = Some ''AB''
   \<and> requests (snd (ranged_download short_range_server (JStr ''http://x/a'') ''out/a.vrs'' (Some 4)
                      (world_with [(''out/a.vrs.part'', ''A'')])))
       = [\<lparr>req_method = GET, req_url = JStr ''http://x/a'', req_range = Some 1\<rparr>]"
  by code_simp

text \<open>
  C8. The claim: an entry is eligible exactly when its name ends with \<^verbatim>\<open>.vrs\<close>, compared
  without regard to case. The pattern ends with \<^verbatim>\<open>$\<close>, which also matches before a final
  newline: the name \<^verbatim>\<open>a.vrs\<close> followed by a newline is eligible and does not end with
  \<^verbatim>\<open>.vrs\<close>.
\<close>

theorem name_with_final_newline_is_eligible:
  "is_vrs_entry (JDict [(''filename'', JStr (''a.vrs'' @ [newline])),
                        (''download_url'', JStr ''http://x/a'')]) = Inr True
   \<and> \<not> ends_with_ci ''.vrs'' (''a.vrs'' @ [newline])"
  by code_simp

text \<open>
  C9. The claim: with \<^verbatim>\<open>--max-files N\<close> exactly the first \<open>N\<close> eligible entries are
  processed. \<^verbatim>\<open>main\<close> puts exactly the first \<open>N\<close> eligible entries on the queue, but a
  queued entry is processed only while a worker thread lives, and the thread ends on the
  first exception that leaves \<^verbatim>\<open>download_one\<close> (the defect of C4). With
  \<^verbatim>\<open>--max-files 2\<close>, one worker and three eligible entries, the first of which has a
  number as its checksum, the first two entries are queued, the first is downloaded, the
  thread dies, and the second is never requested.
\<close>

theorem first_two_are_queued_but_not_processed:
  "main_plan first_two_args (JList [entry_a_sha_number, JStr ''x'', entry_b, entry_a])
     = Inr (Some \<lparr>plan_verify = True, plan_threads = 1,
                  plan_queue = [entry_a_sha_number, entry_b]\<rparr>)
   \<and> collect_vrs (recursive_find_entries
                    (JList [entry_a_sha_number, JStr ''x'', entry_b, entry_a]))
       = Inr [entry_a_sha_number, entry_b, entry_a]
   \<and> fst (run_one_worker full_body_server ''out'' True [entry_a_sha_number, entry_b]
            (world_with [])) = Hangs
   \<and> requests (snd (run_one_worker full_body_server ''out'' True [entry_a_sha_number, entry_b]
                      (world_with [])))
       = [\<lparr>req_method = GET, req_url = JStr ''http://x/a'', req_range = None\<rparr>]
   \<and> files (snd (run_one_worker full_body_server ''out'' True [entry_a_sha_number, entry_b]
                   (world_with []))) ''out/b.vrs'' = None"
  by code_simp

text \<open>
  C10. The claim: for every descriptor whose \<^verbatim>\<open>file_size_bytes\<close> is absent or not an
  integer \<^verbatim>\<open>download_one\<close> falls back to a HEAD request, and \<^verbatim>\<open>head_request_length\<close>
  returns the parsed integer for a numeric header and \<^verbatim>\<open>None\<close> otherwise. Amended: for a
  descriptor whose name is absent or a string and whose address is not empty, and whose
  \<^verbatim>\<open>file_size_bytes\<close> is absent or is neither an \<^verbatim>\<open>int\<close> nor a \<^verbatim>\<open>bool\<close>, \<^verbatim>\<open>download_one\<close>
  sends the HEAD request first and goes on with what \<^verbatim>\<open>head_request_length\<close> returns;
  \<^verbatim>\<open>head_request_length\<close> always returns: the number written in the \<^verbatim>\<open>Content-Length\<close>
  header when the header is there and is a non-empty string of at most 4300 of the
  digits 0-9, and \<^verbatim>\<open>None\<close> in every other case (an exception of the request, no header,
  any other value).
\<close>

theorem unknown_size_falls_back_to_head:
  assumes "sanitize_filename (dict_get_default kvs ''filename'' (JStr ''unknown.vrs'')) = Inr filename"
    and "truthy (dict_get kvs ''download_url'')"
    and "\<not> has_key ''file_size_bytes'' kvs \<or> \<not> isinstance_int (dict_get kvs ''file_size_bytes'')"
  shows "download_one env (JDict kvs) dir verify w =
           download_sized env kvs filename (dict_get kvs ''download_url'')
             (fst (head_request_length env (dict_get kvs ''download_url'') w)) dir verify
             (w\<lparr>requests := requests w
                   @ [\<lparr>req_method = HEAD, req_url = dict_get kvs ''download_url'', req_range = None\<rparr>]\<rparr>)
       \<and> head_request_length env (dict_get kvs ''download_url'') w =
           ((case urlopen env \<lparr>req_method = HEAD, req_url = dict_get kvs ''download_url'', req_range = None\<rparr> of
               Inl e \<Rightarrow> None
             | Inr resp \<Rightarrow>
                 (case header resp ''Content-Length'' of
                    None \<Rightarrow> None
                  | Some l \<Rightarrow>
                      if l \<noteq> [] \<and> list_all is_ascii_digit l
                         \<and> length l \<le> int_max_str_digits
                      then Some (decimal l) else None)),
            w\<lparr>requests := requests w
                  @ [\<lparr>req_method = HEAD, req_url = dict_get kvs ''download_url'', req_range = None\<rparr>]\<rparr>)"
proof -
  let ?url = "dict_get kvs ''download_url''"
  have not_int: "\<not> isinstance_int (dict_get kvs ''file_size_bytes'')"
    using assms(3) absent_key_gives_none [of "''file_size_bytes''" kvs] by auto
  then have r: "resolve_expected_size env kvs ?url w = head_request_length env ?url w"
    by (simp add: resolve_expected_size_def Let_def)
  have "download_one env (JDict kvs) dir verify w =
          download_sized env kvs filename ?url (fst (head_request_length env ?url w)) dir verify
            (snd (head_request_length env ?url w))"
    using assms(1,2) r by (simp add: Let_def split: prod.splits)
  moreover have "head_request_length env ?url w
      = (fst (head_request_length env ?url w), snd (head_request_length env ?url w))"
    by simp
  ultimately show ?thesis
    unfolding head_request_length_world head_request_length_value by (intro conjI)
qed

theorem unknown_size_falls_back_to_head_witness:
  "head_request_length full_body_server (JStr ''http://x/c'') (world_with [])
   = (Some 4, (world_with [])\<lparr>requests := requests (world_with [])
         @ [\<lparr>req_method = HEAD, req_url = JStr ''http://x/c'', req_range = None\<rparr>]\<rparr>)"
proof -
  have 1: "sanitize_filename (dict_get_default entry_c_unsized ''filename'' (JStr ''unknown.vrs''))
             = Inr ''c.vrs''"
    by code_simp
  have 2: "truthy (dict_get entry_c_unsized ''download_url'')" by code_simp
  have 3: "\<not> has_key ''file_size_bytes'' entry_c_unsized
           \<or> \<not> isinstance_int (dict_get entry_c_unsized ''file_size_bytes'')"
    by code_simp
  have u: "dict_get entry_c_unsized ''download_url'' = JStr ''http://x/c''" by code_simp
  have v: "(case urlopen full_body_server
                   \<lparr>req_method = HEAD, req_url = JStr ''http://x/c'', req_range = None\<rparr> of
               Inl e \<Rightarrow> None
             | Inr resp \<Rightarrow>
                 (case header resp ''Content-Length'' of
                    None \<Rightarrow> None
                  | Some l \<Rightarrow>
                      if l \<noteq> [] \<and> list_all is_ascii_digit l
                         \<and> length l \<le> int_max_str_digits
                      then Some (decimal l) else None))
           = Some 4"
    by code_simp
  from unknown_size_falls_back_to_head [OF 1 2 3, of full_body_server "''out''" True "world_with []"]
  show ?thesis unfolding u v by (rule conjunct2)
qed

text \<open>
  The claim as stated fails five times. A descriptor with an empty address is dropped
  before any request. A descriptor whose name is a number makes \<^verbatim>\<open>download_one\<close> raise
  before any request. A \<^verbatim>\<open>file_size_bytes\<close> of \<^verbatim>\<open>true\<close> passes \<^verbatim>\<open>isinstance(..., int)\<close>
  and is taken as the size 1: no HEAD request is sent. A header of 4301 digits, and the
  header that is the superscript two, pass \<^verbatim>\<open>isdigit\<close>, make \<^verbatim>\<open>int\<close> raise, and give
  \<^verbatim>\<open>None\<close>.
\<close>

theorem head_fallback_has_exceptions:
  "(\<not> has_key ''file_size_bytes'' [(''filename'', JStr ''a.vrs''), (''download_url'', JStr [])]
   \<and> requests (snd (download_one full_body_server
            (JDict [(''filename'', JStr ''a.vrs''), (''download_url'', JStr [])]) ''out'' True
            (world_with []))) = []
   \<and> out (snd (download_one full_body_server
            (JDict [(''filename'', JStr ''a.vrs''), (''download_url'', JStr [])]) ''out'' True
            (world_with []))) = [SkipNoUrl ''a.vrs'']
   \<and> \<not> has_key ''file_size_bytes'' entry_g_number_name
   \<and> fst (download_one full_body_server (JDict entry_g_number_name) ''out'' True (world_with []))
       = Some TypeError
   \<and> requests (snd (download_one full_body_server (JDict entry_g_number_name) ''out'' True
                      (world_with []))) = []
   \<and> dict_get entry_f_bool_size ''file_size_bytes'' = JBool True
   \<and> requests (snd (download_one full_body_server (JDict entry_f_bool_size) ''out'' True
                      (world_with [])))
       = [\<lparr>req_method = GET, req_url = JStr ''http://x/f'', req_range = None\<rparr>]
   \<and> out (snd (download_one full_body_server (JDict entry_f_bool_size) ''out'' True
                 (world_with []))) = [InfoDownloading ''f.vrs'', WarnSize ''f.vrs'']
   \<and> py_isdigit [CHR 0xB2]
   \<and> fst (head_request_length superscript_length_server (JStr ''http://x/a'') (world_with []))
       = None)
   \<and> py_isdigit (replicate 4301 (CHR ''1''))
   \<and> fst (head_request_length long_length_server (JStr ''http://x/a'') (world_with [])) = None"
  by (rule conjI [OF head_fallback_small_cases
        conjI [OF long_digits_pass_isdigit long_length_gives_none]])

end
